theory Spec2Isabelle
  imports Main
begin

section \<open>Relax expression nodes: data model\<close>

text \<open>
  The embedding follows \<^verbatim>\<open>python/tvm/relax/expr.py\<close>. Python exceptions are values
  of the type \<open>error\<close>; a function that may raise returns \<open>error + 'a\<close>, with
  \<open>Inl\<close> for the exception.
\<close>

datatype error = IndexError | TypeError | ValueError

type_synonym Span = string

text \<open>
  Modelled from the spec: a shape term (\<^verbatim>\<open>PrimExpr\<close>, imported from \<^verbatim>\<open>tvm.tir\<close>) is a
  symbolic integer term, here an integer constant or a symbolic integer variable.
\<close>

datatype PrimExpr = IntImm int | SymVar string

subsection \<open>ShapeExpr\<close>

text \<open>
  \<^verbatim>\<open>class ShapeExpr\<close>: the field \<^verbatim>\<open>values: List[PrimExpr]\<close> (here \<open>shape_values\<close>) and
  the source location.
  The constructor stores the sequence it is given (a list, a tuple or an array).
\<close>

record ShapeExpr =
  shape_values :: "PrimExpr list"
  shape_span :: "Span option"

definition ShapeExpr_init :: "PrimExpr list \<Rightarrow> Span option \<Rightarrow> ShapeExpr" where
  "ShapeExpr_init vs sp = \<lparr>shape_values = vs, shape_span = sp\<rparr>"

text \<open>\<^verbatim>\<open>__len__\<close>: \<^verbatim>\<open>return len(self.values)\<close>.\<close>

definition ShapeExpr_len :: "ShapeExpr \<Rightarrow> int" where
  "ShapeExpr_len s = int (length (shape_values s))"

text \<open>
  Indexing of a Python sequence, \<^verbatim>\<open>xs[index]\<close>: a negative index counts from the end,
  and an index outside \<open>-len \<le> index < len\<close> raises \<^verbatim>\<open>IndexError\<close>.
\<close>

definition seq_getitem :: "'a list \<Rightarrow> int \<Rightarrow> error + 'a" where
  "seq_getitem xs index =
     (if index < - int (length xs) \<or> int (length xs) \<le> index then Inl IndexError
      else if index < 0 then Inr (xs ! nat (index + int (length xs)))
      else Inr (xs ! nat index))"

text \<open>
  \<^verbatim>\<open>__getitem__\<close>:
  \<^verbatim>\<open>if index >= len(self): raise IndexError("Tuple index out of range")\<close>, then
  \<^verbatim>\<open>return self.values[index]\<close>.
\<close>

definition ShapeExpr_getitem :: "ShapeExpr \<Rightarrow> int \<Rightarrow> error + PrimExpr" where
  "ShapeExpr_getitem s index =
     (if index \<ge> ShapeExpr_len s then Inl IndexError
      else seq_getitem (shape_values s) index)"

text \<open>
  \<^verbatim>\<open>make_shape\<close>: a list or a tuple becomes a \<^verbatim>\<open>ShapeExpr\<close>, anything else raises
  \<^verbatim>\<open>ValueError("Wrong type")\<close>. The argument of a shape annotation is one of: absent,
  a Python list, a Python tuple, or an expression that already is a shape.
\<close>

datatype shape = Shape ShapeExpr | RuntimeDepShape "Span option"

datatype shape_arg =
    ArgNone
  | ArgList "PrimExpr list"
  | ArgTuple "PrimExpr list"
  | ArgExpr shape

fun is_list_or_tuple :: "shape_arg \<Rightarrow> bool" where
  "is_list_or_tuple (ArgList _) = True"
| "is_list_or_tuple (ArgTuple _) = True"
| "is_list_or_tuple _ = False"

fun make_shape :: "shape_arg \<Rightarrow> error + ShapeExpr" where
  "make_shape (ArgList ts) = Inr (ShapeExpr_init ts None)"
| "make_shape (ArgTuple ts) = Inr (ShapeExpr_init ts None)"
| "make_shape _ = Inl ValueError"

subsection \<open>Types and identifiers\<close>

text \<open>
  Modelled from the spec: the static types (the module \<^verbatim>\<open>ty\<close> is imported, not part of
  this file). \<^verbatim>\<open>Var.__call__\<close> tests \<^verbatim>\<open>isinstance(self.checked_type, ty.FuncType)\<close>, so
  the function type is one variant among the others.
\<close>

datatype Type =
    ShapeType
  | ObjectType
  | DynTensorType int string
  | TupleType "Type list"
  | FuncType "Type list" Type

fun is_FuncType :: "Type \<Rightarrow> bool" where
  "is_FuncType (FuncType _ _) = True"
| "is_FuncType _ = False"

text \<open>
  Modelled from the spec: the identifier \<^verbatim>\<open>Id\<close> (imported from \<^verbatim>\<open>tvm.relay\<close>) is an
  object with an identity of its own and a name hint. The identity is the handle
  \<open>id_addr\<close> into an arena of identifiers; equality and lookup use the handle, the name
  is an auxiliary display field.
\<close>

record Id =
  id_addr :: nat
  id_name_hint :: string

text \<open>The arena: the next handle that has not been given out.\<close>

record arena =
  next_id :: nat

subsection \<open>Var and DataflowVar\<close>

text \<open>
  \<^verbatim>\<open>class Var\<close> and its subclass \<^verbatim>\<open>class DataflowVar\<close> (the flag \<open>is_dataflow\<close> is the
  class of the object). \<open>var_shape\<close> holds the shape annotation, \<open>checked_type\<close> the
  resolved static type.
\<close>

record Var =
  vid :: Id
  is_dataflow :: bool
  var_shape :: "shape option"
  type_annotation :: "Type option"
  checked_type :: "Type option"
  var_span :: "Span option"

text \<open>
  The annotation that reaches the node constructor:
  \<^verbatim>\<open>if isinstance(shape_annotation, (list, tuple)): shape_annotation = make_shape(shape_annotation)\<close>;
  any other argument is passed on as it is (\<open>arg_shape\<close> is applied to arguments that are
  neither a list nor a tuple).
\<close>

fun arg_shape :: "shape_arg \<Rightarrow> shape option" where
  "arg_shape (ArgExpr s) = Some s"
| "arg_shape _ = None"

definition coerce_annotation :: "shape_arg \<Rightarrow> error + shape option" where
  "coerce_annotation a =
     (if is_list_or_tuple a
      then (case make_shape a of Inl e \<Rightarrow> Inl e | Inr s \<Rightarrow> Inr (Some (Shape s)))
      else Inr (arg_shape a))"

text \<open>
  Modelled from the spec: the node constructors \<^verbatim>\<open>_ffi_api.Var\<close>,
  \<^verbatim>\<open>_ffi_api.VarFromId\<close>, \<^verbatim>\<open>_ffi_api.DataflowVar\<close> and \<^verbatim>\<open>_ffi_api.DataflowVarFromId\<close>.
  Construction from a name mints a new identifier; construction from an existing
  identifier keeps it (aliasing). The type annotation is the static type of the node
  until it is back-filled.
\<close>

definition mk_var :: "Id \<Rightarrow> bool \<Rightarrow> shape option \<Rightarrow> Type option \<Rightarrow> Span option \<Rightarrow> Var" where
  "mk_var i df sa ta sp =
     \<lparr>vid = i, is_dataflow = df, var_shape = sa, type_annotation = ta, checked_type = ta,
      var_span = sp\<rparr>"

definition ffi_Var ::
  "bool \<Rightarrow> string \<Rightarrow> shape option \<Rightarrow> Type option \<Rightarrow> Span option \<Rightarrow> arena \<Rightarrow> Var \<times> arena" where
  "ffi_Var df name sa ta sp h =
     (mk_var \<lparr>id_addr = next_id h, id_name_hint = name\<rparr> df sa ta sp,
      h\<lparr>next_id := Suc (next_id h)\<rparr>)"

definition ffi_VarFromId ::
  "bool \<Rightarrow> Id \<Rightarrow> shape option \<Rightarrow> Type option \<Rightarrow> Span option \<Rightarrow> arena \<Rightarrow> Var \<times> arena" where
  "ffi_VarFromId df i sa ta sp h = (mk_var i df sa ta sp, h)"

text \<open>
  \<^verbatim>\<open>Var.__init__\<close>: the first argument is a name (\<open>Inl\<close>) or an existing identifier
  (\<open>Inr\<close>); \<^verbatim>\<open>_ffi_api.Var if isinstance(name_hint, str) else _ffi_api.VarFromId\<close>.
\<close>

definition Var_init ::
  "string + Id \<Rightarrow> shape_arg \<Rightarrow> Type option \<Rightarrow> Span option \<Rightarrow> arena \<Rightarrow> error + Var \<times> arena" where
  "Var_init name_hint shape_annotation ta sp h =
     (case coerce_annotation shape_annotation of
        Inl e \<Rightarrow> Inl e
      | Inr sa \<Rightarrow>
          Inr (case name_hint of
                 Inl name \<Rightarrow> ffi_Var False name sa ta sp h
               | Inr i \<Rightarrow> ffi_VarFromId False i sa ta sp h))"

text \<open>\<^verbatim>\<open>DataflowVar.__init__\<close>: the same steps, with the dataflow constructors.\<close>

definition DataflowVar_init ::
  "string + Id \<Rightarrow> shape_arg \<Rightarrow> Type option \<Rightarrow> Span option \<Rightarrow> arena \<Rightarrow> error + Var \<times> arena" where
  "DataflowVar_init name_hint shape_annotation ta sp h =
     (case coerce_annotation shape_annotation of
        Inl e \<Rightarrow> Inl e
      | Inr sa \<Rightarrow>
          Inr (case name_hint of
                 Inl name \<Rightarrow> ffi_Var True name sa ta sp h
               | Inr i \<Rightarrow> ffi_VarFromId True i sa ta sp h))"

text \<open>The property \<^verbatim>\<open>name_hint\<close>: \<^verbatim>\<open>str(self.vid.name_hint)\<close>.\<close>

definition name_hint :: "Var \<Rightarrow> string" where
  "name_hint v = id_name_hint (vid v)"

text \<open>Two variables are the same binding site when their identifiers are the same object.\<close>

definition same_identity :: "Var \<Rightarrow> Var \<Rightarrow> bool" where
  "same_identity v w = (id_addr (vid v) = id_addr (vid w))"

subsection \<open>Expressions, bindings and blocks\<close>

type_synonym Attrs = "(string \<times> string) list"

text \<open>
  The expression nodes of the file and the ones it imports from \<^verbatim>\<open>tvm.relay\<close>
  (\<^verbatim>\<open>Call\<close>, \<^verbatim>\<open>If\<close>, \<^verbatim>\<open>Constant\<close>, \<^verbatim>\<open>Tuple\<close>), the two kinds of binding and the two
  kinds of block. The last field of \<open>Function\<close> is the statically known type of the
  function value; it is absent until type inference fills it in.
\<close>

datatype Expr =
    ShapeE ShapeExpr
  | RuntimeDepShapeE "Span option"
  | VarE Var
  | Constant int
  | TupleE "Expr list"
  | Call (op: Expr) (args: "Expr list") (call_attrs: "Attrs option")
      (type_args: "Type list option") (call_span: "Span option")
  | IfE Expr Expr Expr
  | SeqExpr (blocks: "BindingBlock list") (seq_body: Expr) (seq_span: "Span option")
  | Function (params: "Var list") (body: Expr) (ret_type: Type) (ret_shape: Expr)
      (attrs: "Attrs option") (fn_span: "Span option") (fn_checked_type: "Type option")
  | ExternFunc (global_symbol: string) (extern_span: "Span option")
and Binding =
    MatchShape Expr "PrimExpr list" Var "Span option"
  | VarBinding Var Expr "Span option"
and BindingBlock =
    BindingBlock "Binding list" "Span option"
  | DataflowBlock "Binding list" "Span option"

text \<open>
  \<^verbatim>\<open>Var.__call__\<close>:
  \<^verbatim>\<open>if self.checked_type and isinstance(self.checked_type, ty.FuncType): return Call(self, args, attrs=attrs)\<close>,
  \<^verbatim>\<open>else: raise TypeError("Only vars with function type can be called")\<close>.
\<close>

definition Var_call :: "Var \<Rightarrow> Expr list \<Rightarrow> Attrs option \<Rightarrow> error + Expr" where
  "Var_call self as at =
     (case checked_type self of
        None \<Rightarrow> Inl TypeError
      | Some t \<Rightarrow>
          if is_FuncType t then Inr (Call (VarE self) as at None None)
          else Inl TypeError)"

text \<open>\<^verbatim>\<open>Function.__call__\<close>: \<^verbatim>\<open>return Call(self, args, None, None)\<close>.\<close>

definition Function_call :: "Expr \<Rightarrow> Expr list \<Rightarrow> error + Expr" where
  "Function_call self as = Inr (Call self as None None None)"

subsection \<open>Shape matching at run time\<close>

text \<open>\<^verbatim>\<open>MatchShape.__init__\<close> builds the binding node from its fields; it raises nothing.\<close>

definition MatchShape_init :: "Expr \<Rightarrow> PrimExpr list \<Rightarrow> Var \<Rightarrow> Span option \<Rightarrow> Binding" where
  "MatchShape_init v pat x sp = MatchShape v pat x sp"

text \<open>
  Modelled from the spec: the execution of a MatchShape binding, which is not part of
  \<^verbatim>\<open>expr.py\<close>. The symbols bound so far are a map from symbol names to dimensions. The
  pattern is matched against the actual shape from left to right: the first occurrence
  of a free symbol binds it to the dimension at its position, an occurrence of a bound
  symbol (or a constant) asserts equality with the dimension, and a failed assertion is
  a shape-mismatch error that carries the two values. A pattern whose rank differs from
  the rank of the actual shape is a shape error, raised before any term is matched, so
  \<open>match_terms\<close> only runs on sequences of equal length.
\<close>

datatype runtime_error = ShapeMismatch int int | RankMismatch nat nat

type_synonym sym_env = "string \<rightharpoonup> int"

fun match_term :: "sym_env \<Rightarrow> PrimExpr \<Rightarrow> int \<Rightarrow> runtime_error + sym_env" where
  "match_term env (IntImm c) d = (if c = d then Inr env else Inl (ShapeMismatch c d))"
| "match_term env (SymVar s) d =
     (case env s of
        None \<Rightarrow> Inr (env(s \<mapsto> d))
      | Some d' \<Rightarrow> if d' = d then Inr env else Inl (ShapeMismatch d' d))"

fun match_terms :: "sym_env \<Rightarrow> PrimExpr list \<Rightarrow> int list \<Rightarrow> runtime_error + sym_env" where
  "match_terms env [] ds = Inr env"
| "match_terms env (p # ps) [] = Inr env"
| "match_terms env (p # ps) (d # ds) =
     (case match_term env p d of Inl e \<Rightarrow> Inl e | Inr env' \<Rightarrow> match_terms env' ps ds)"

definition match_shape :: "sym_env \<Rightarrow> PrimExpr list \<Rightarrow> int list \<Rightarrow> runtime_error + sym_env" where
  "match_shape env pat actual =
     (if length pat \<noteq> length actual then Inl (RankMismatch (length pat) (length actual))
      else match_terms env pat actual)"

text \<open>The value of a shape term under the symbols bound so far, and the symbols of a pattern.\<close>

fun eval_term :: "sym_env \<Rightarrow> PrimExpr \<Rightarrow> int option" where
  "eval_term env (IntImm c) = Some c"
| "eval_term env (SymVar s) = env s"

fun term_syms :: "PrimExpr \<Rightarrow> string set" where
  "term_syms (IntImm c) = {}"
| "term_syms (SymVar s) = {s}"

definition pattern_syms :: "PrimExpr list \<Rightarrow> string set" where
  "pattern_syms pat = (\<Union>p \<in> set pat. term_syms p)"

subsection \<open>Well-formedness of a function\<close>

text \<open>The identity of a variable: the handle of its identifier.\<close>

definition handle :: "Var \<Rightarrow> nat" where
  "handle v = id_addr (vid v)"

text \<open>
  The nodes of a graph in traversal order (block list, binding list, body): every
  expression, binding and block that occurs in it, at any depth.
\<close>

datatype node = NExpr Expr | NBinding Binding | NBlock BindingBlock

fun nodes_expr :: "Expr \<Rightarrow> node list"
  and nodes_binding :: "Binding \<Rightarrow> node list"
  and nodes_block :: "BindingBlock \<Rightarrow> node list" where
  "nodes_expr (ShapeE s) = [NExpr (ShapeE s)]"
| "nodes_expr (RuntimeDepShapeE sp) = [NExpr (RuntimeDepShapeE sp)]"
| "nodes_expr (VarE v) = [NExpr (VarE v)]"
| "nodes_expr (Constant c) = [NExpr (Constant c)]"
| "nodes_expr (TupleE es) = NExpr (TupleE es) # concat (map nodes_expr es)"
| "nodes_expr (Call f as at ta sp) =
     NExpr (Call f as at ta sp) # nodes_expr f @ concat (map nodes_expr as)"
| "nodes_expr (IfE c t e) = NExpr (IfE c t e) # nodes_expr c @ nodes_expr t @ nodes_expr e"
| "nodes_expr (SeqExpr bs b sp) =
     NExpr (SeqExpr bs b sp) # concat (map nodes_block bs) @ nodes_expr b"
| "nodes_expr (Function ps b rt rs at sp ct) =
     NExpr (Function ps b rt rs at sp ct) # nodes_expr b"
| "nodes_expr (ExternFunc g sp) = [NExpr (ExternFunc g sp)]"
| "nodes_binding (MatchShape e pat x sp) = NBinding (MatchShape e pat x sp) # nodes_expr e"
| "nodes_binding (VarBinding x e sp) = NBinding (VarBinding x e sp) # nodes_expr e"
| "nodes_block (BindingBlock bs sp) =
     NBlock (BindingBlock bs sp) # concat (map nodes_binding bs)"
| "nodes_block (DataflowBlock bs sp) =
     NBlock (DataflowBlock bs sp) # concat (map nodes_binding bs)"

fun binding_var :: "Binding \<Rightarrow> Var" where
  "binding_var (MatchShape e pat x sp) = x"
| "binding_var (VarBinding x e sp) = x"

fun binding_value :: "Binding \<Rightarrow> Expr" where
  "binding_value (MatchShape e pat x sp) = e"
| "binding_value (VarBinding x e sp) = e"

text \<open>
  What a node contributes: the variable it references, the variable it binds, the
  parameters it introduces (a nested function).
\<close>

fun node_refs :: "node \<Rightarrow> Var list" where
  "node_refs (NExpr (VarE v)) = [v]"
| "node_refs _ = []"

fun node_defs :: "node \<Rightarrow> Var list" where
  "node_defs (NBinding b) = [binding_var b]"
| "node_defs _ = []"

fun node_params :: "node \<Rightarrow> Var list" where
  "node_params (NExpr (Function ps b rt rs at sp ct)) = ps"
| "node_params _ = []"

definition refs_of :: "node list \<Rightarrow> nat set" where
  "refs_of ns = (\<Union>n \<in> set ns. handle ` set (node_refs n))"

definition defs_of :: "node list \<Rightarrow> nat set" where
  "defs_of ns = (\<Union>n \<in> set ns. handle ` set (node_defs n) \<union> handle ` set (node_params n))"

definition bound_vars :: "Expr \<Rightarrow> Var list" where
  "bound_vars e = concat (map node_defs (nodes_expr e))"

text \<open>
  Modelled from the spec: dataflow purity (invariant 3 of the scope model). A binding
  value inside a DataflowBlock must contain no control flow and no call with a side
  effect. The effect of a call is the effect of the external symbol it calls, which is
  established out of band by whatever registers the symbol: the parameter \<open>eff\<close>.
\<close>

fun node_impure :: "(string \<Rightarrow> bool) \<Rightarrow> node \<Rightarrow> bool" where
  "node_impure eff (NExpr (IfE c t e)) = True"
| "node_impure eff (NExpr (Call (ExternFunc g sp') as at ta sp)) = eff g"
| "node_impure eff _ = False"

definition impure :: "(string \<Rightarrow> bool) \<Rightarrow> Expr \<Rightarrow> bool" where
  "impure eff e = list_ex (node_impure eff) (nodes_expr e)"

text \<open>
  Modelled from the spec: the validation that \<^verbatim>\<open>Function.__init__\<close> reaches through
  \<^verbatim>\<open>_ffi_api.Function\<close>, which is not part of \<^verbatim>\<open>expr.py\<close>. The scope is the list of
  identities that may be referenced.
  \<^item> Def-before-use (invariant 2): a reference to a variable that is not in scope is an
    error; the scope holds the parameters, the variables bound by earlier bindings of
    the block and of earlier blocks, and the enclosing scope.
  \<^item> Dataflow visibility (invariant 4): a DataflowVar bound in a DataflowBlock is in
    scope until the end of that block and in the trailing body of the enclosing
    SeqExpr, and nowhere else; a plain Var bound there stays in scope. A reference to
    a DataflowVar that is not in scope is a visibility error.
  \<^item> Dataflow purity (invariant 3): checked at every binding of a DataflowBlock.
  \<^item> Single assignment (invariant 1): no identity is the target of two bindings.
  The blocks of a SeqExpr are checked in list order, the bindings of a block in list
  order, then the trailing body.
\<close>

datatype wf_error =
    UndefinedVar Var
  | VisibilityViolation Var
  | PurityViolation Binding
  | SingleAssignmentViolation Var

fun check_expr :: "(string \<Rightarrow> bool) \<Rightarrow> nat list \<Rightarrow> Expr \<Rightarrow> wf_error option"
  and check_exprs :: "(string \<Rightarrow> bool) \<Rightarrow> nat list \<Rightarrow> Expr list \<Rightarrow> wf_error option"
  and check_bindings ::
    "(string \<Rightarrow> bool) \<Rightarrow> bool \<Rightarrow> nat list \<Rightarrow> Binding list \<Rightarrow> wf_error + nat list"
  and check_blocks ::
    "(string \<Rightarrow> bool) \<Rightarrow> nat list \<Rightarrow> nat list \<Rightarrow> BindingBlock list
       \<Rightarrow> wf_error + nat list \<times> nat list" where
  "check_expr eff sc (ShapeE s) = None"
| "check_expr eff sc (RuntimeDepShapeE sp) = None"
| "check_expr eff sc (VarE v) =
     (if handle v \<in> set sc then None
      else if is_dataflow v then Some (VisibilityViolation v)
      else Some (UndefinedVar v))"
| "check_expr eff sc (Constant c) = None"
| "check_expr eff sc (TupleE es) = check_exprs eff sc es"
| "check_expr eff sc (Call f as at ta sp) =
     (case check_expr eff sc f of Some er \<Rightarrow> Some er | None \<Rightarrow> check_exprs eff sc as)"
| "check_expr eff sc (IfE c t e) =
     (case check_expr eff sc c of
        Some er \<Rightarrow> Some er
      | None \<Rightarrow> (case check_expr eff sc t of Some er \<Rightarrow> Some er | None \<Rightarrow> check_expr eff sc e))"
| "check_expr eff sc (SeqExpr bs b sp) =
     (case check_blocks eff sc [] bs of
        Inl er \<Rightarrow> Some er
      | Inr (sc', dfs) \<Rightarrow> check_expr eff (dfs @ sc') b)"
| "check_expr eff sc (Function ps b rt rs at sp ct) = check_expr eff (map handle ps @ sc) b"
| "check_expr eff sc (ExternFunc g sp) = None"
| "check_exprs eff sc [] = None"
| "check_exprs eff sc (e # es) =
     (case check_expr eff sc e of Some er \<Rightarrow> Some er | None \<Rightarrow> check_exprs eff sc es)"
| "check_bindings eff df sc [] = Inr sc"
| "check_bindings eff df sc (MatchShape e pat x sp # bs) =
     (if df \<and> impure eff e then Inl (PurityViolation (MatchShape e pat x sp))
      else case check_expr eff sc e of
             Some er \<Rightarrow> Inl er
           | None \<Rightarrow> check_bindings eff df (handle x # sc) bs)"
| "check_bindings eff df sc (VarBinding x e sp # bs) =
     (if df \<and> impure eff e then Inl (PurityViolation (VarBinding x e sp))
      else case check_expr eff sc e of
             Some er \<Rightarrow> Inl er
           | None \<Rightarrow> check_bindings eff df (handle x # sc) bs)"
| "check_blocks eff sc dfs [] = Inr (sc, dfs)"
| "check_blocks eff sc dfs (BindingBlock bs sp # rest) =
     (case check_bindings eff False sc bs of
        Inl er \<Rightarrow> Inl er
      | Inr sc' \<Rightarrow> check_blocks eff sc' dfs rest)"
| "check_blocks eff sc dfs (DataflowBlock bs sp # rest) =
     (case check_bindings eff True sc bs of
        Inl er \<Rightarrow> Inl er
      | Inr sc' \<Rightarrow>
          check_blocks eff
            (map handle (filter (\<lambda>x. \<not> is_dataflow x) (map binding_var bs)) @ sc)
            (map handle (filter is_dataflow (map binding_var bs)) @ dfs) rest)"


fun first_dup :: "Var list \<Rightarrow> Var option" where
  "first_dup [] = None"
| "first_dup (v # vs) = (if handle v \<in> handle ` set vs then Some v else first_dup vs)"

definition well_formed :: "(string \<Rightarrow> bool) \<Rightarrow> Var list \<Rightarrow> Expr \<Rightarrow> wf_error option" where
  "well_formed eff ps b =
     (case check_expr eff (map handle ps) b of
        Some er \<Rightarrow> Some er
      | None \<Rightarrow> map_option SingleAssignmentViolation (first_dup (bound_vars b)))"

text \<open>
  \<^verbatim>\<open>Function.__init__\<close> passes its arguments to \<^verbatim>\<open>_ffi_api.Function\<close>: construction in
  checked mode. Modelled from the spec: it validates the graph and either raises the
  error or returns the whole function.
\<close>

definition Function_init ::
  "(string \<Rightarrow> bool) \<Rightarrow> Var list \<Rightarrow> Expr \<Rightarrow> Type \<Rightarrow> Expr \<Rightarrow> Attrs option \<Rightarrow> Span option
     \<Rightarrow> wf_error + Expr" where
  "Function_init eff ps b rt rs at sp =
     (case well_formed eff ps b of
        Some er \<Rightarrow> Inl er
      | None \<Rightarrow> Inr (Function ps b rt rs at sp None))"

text \<open>
  \<^verbatim>\<open>Function.create_unchecked\<close> returns \<^verbatim>\<open>_ffi_api.Function_CreateUnchecked(...)\<close>.
  Modelled from the spec: the node is built from its fields with no validation.
\<close>

definition create_unchecked ::
  "Var list \<Rightarrow> Expr \<Rightarrow> Type \<Rightarrow> Expr \<Rightarrow> Attrs option \<Rightarrow> Span option \<Rightarrow> Expr" where
  "create_unchecked ps b rt rs at sp = Function ps b rt rs at sp None"

text \<open>
  The variables a block leaves in scope for the blocks after it, and the DataflowVars
  of a DataflowBlock, which only the trailing body of the enclosing SeqExpr may use.
\<close>

fun block_exports :: "BindingBlock \<Rightarrow> Var list" where
  "block_exports (BindingBlock bs sp) = map binding_var bs"
| "block_exports (DataflowBlock bs sp) = filter (\<lambda>x. \<not> is_dataflow x) (map binding_var bs)"

fun block_hidden :: "BindingBlock \<Rightarrow> Var list" where
  "block_hidden (BindingBlock bs sp) = []"
| "block_hidden (DataflowBlock bs sp) = filter is_dataflow (map binding_var bs)"

text \<open>
  Modelled from the spec: a reference to the identity \<open>h\<close> from a place where \<open>h\<close> is
  not visible (invariants 2 and 4 of the scope model), read off the structure of the
  graph. Inside an expression, a reference to \<open>h\<close> is visible only
  \<^item> after a binding of the same block whose target has the identity \<open>h\<close>,
  \<^item> in a later block of the same SeqExpr, when an earlier block leaves \<open>h\<close> in scope
    (\<open>block_exports\<close>: a DataflowBlock does not leave its DataflowVars in scope),
  \<^item> in the trailing body of the SeqExpr whose blocks bind \<open>h\<close>,
  \<^item> in the body of a nested function with a parameter of identity \<open>h\<close>.
  A SeqExpr leaves nothing in scope outside itself. \<open>escapes h e\<close> holds when \<open>e\<close> holds
  a reference to \<open>h\<close>, at any depth, that none of these makes visible.
\<close>

fun escapes :: "nat \<Rightarrow> Expr \<Rightarrow> bool"
  and escapes_exprs :: "nat \<Rightarrow> Expr list \<Rightarrow> bool"
  and escapes_bindings :: "nat \<Rightarrow> Binding list \<Rightarrow> bool"
  and escapes_blocks :: "nat \<Rightarrow> BindingBlock list \<Rightarrow> bool" where
  "escapes h (ShapeE s) = False"
| "escapes h (RuntimeDepShapeE sp) = False"
| "escapes h (VarE v) = (handle v = h)"
| "escapes h (Constant c) = False"
| "escapes h (TupleE es) = escapes_exprs h es"
| "escapes h (Call f as at ta sp) = (escapes h f \<or> escapes_exprs h as)"
| "escapes h (IfE c t e) = (escapes h c \<or> escapes h t \<or> escapes h e)"
| "escapes h (SeqExpr bs b sp) =
     (escapes_blocks h bs \<or>
      (h \<notin> handle ` set (concat (map block_exports bs)) \<and>
       h \<notin> handle ` set (concat (map block_hidden bs)) \<and> escapes h b))"
| "escapes h (Function ps b rt rs at sp ct) = (h \<notin> handle ` set ps \<and> escapes h b)"
| "escapes h (ExternFunc g sp) = False"
| "escapes_exprs h [] = False"
| "escapes_exprs h (e # es) = (escapes h e \<or> escapes_exprs h es)"
| "escapes_bindings h [] = False"
| "escapes_bindings h (MatchShape e pat x sp # bs) =
     (escapes h e \<or> (handle x \<noteq> h \<and> escapes_bindings h bs))"
| "escapes_bindings h (VarBinding x e sp # bs) =
     (escapes h e \<or> (handle x \<noteq> h \<and> escapes_bindings h bs))"
| "escapes_blocks h [] = False"
| "escapes_blocks h (BindingBlock bs sp # rest) =
     (escapes_bindings h bs \<or>
      (h \<notin> handle ` set (block_exports (BindingBlock bs sp)) \<and> escapes_blocks h rest))"
| "escapes_blocks h (DataflowBlock bs sp # rest) =
     (escapes_bindings h bs \<or>
      (h \<notin> handle ` set (block_exports (DataflowBlock bs sp)) \<and> escapes_blocks h rest))"

text \<open>
  The error that a reference to a variable out of scope raises, and the errors that
  name a reference of a graph to the identity \<open>h\<close>.
\<close>

definition scope_error :: "Var \<Rightarrow> wf_error" where
  "scope_error w = (if is_dataflow w then VisibilityViolation w else UndefinedVar w)"

definition blames :: "nat \<Rightarrow> node list \<Rightarrow> wf_error \<Rightarrow> bool" where
  "blames h ns er = (\<exists>w. NExpr (VarE w) \<in> set ns \<and> handle w = h \<and> er = scope_error w)"

section \<open>Properties\<close>

subsection \<open>ShapeExpr indexing\<close>

text \<open>
  C3. A ShapeExpr built from an ordered sequence of \<open>n\<close> terms has length \<open>n\<close>;
  indexing it at \<open>i\<close> with \<open>0 \<le> i < n\<close> returns the \<open>i\<close>-th term unchanged; indexing
  it at any \<open>i \<ge> n\<close> raises IndexError.
\<close>

theorem ShapeExpr_len_getitem:
  "ShapeExpr_len (ShapeExpr_init ts sp) = int (length ts) \<and>
   (\<forall>i. 0 \<le> i \<and> i < int (length ts) \<longrightarrow>
        ShapeExpr_getitem (ShapeExpr_init ts sp) i = Inr (ts ! nat i)) \<and>
   (\<forall>i. int (length ts) \<le> i \<longrightarrow>
        ShapeExpr_getitem (ShapeExpr_init ts sp) i = Inl IndexError)"
  by (simp add: ShapeExpr_len_def ShapeExpr_init_def ShapeExpr_getitem_def seq_getitem_def)

theorem ShapeExpr_len_getitem_witness:
  "ShapeExpr_len (ShapeExpr_init [SymVar ''m'', IntImm 4] None) = 2 \<and>
   ShapeExpr_getitem (ShapeExpr_init [SymVar ''m'', IntImm 4] None) 1 = Inr (IntImm 4) \<and>
   ShapeExpr_getitem (ShapeExpr_init [SymVar ''m'', IntImm 4] None) 2 = Inl IndexError"
  using ShapeExpr_len_getitem [of "[SymVar ''m'', IntImm 4]" None]
  by simp

text \<open>
  C10. For a ShapeExpr built from \<open>n \<ge> 1\<close> terms and a negative index \<open>i\<close> with
  \<open>-n \<le> i \<le> -1\<close>, indexing raises nothing and returns the term at position \<open>n + i\<close>:
  the guard of \<^verbatim>\<open>__getitem__\<close> only rejects \<open>index \<ge> len\<close>.
\<close>

theorem ShapeExpr_getitem_negative:
  assumes "1 \<le> length ts" and "- int (length ts) \<le> i" and "i \<le> - 1"
  shows "ShapeExpr_getitem (ShapeExpr_init ts sp) i = Inr (ts ! nat (int (length ts) + i))"
  using assms
  by (simp add: ShapeExpr_len_def ShapeExpr_init_def ShapeExpr_getitem_def seq_getitem_def
      add.commute)

theorem ShapeExpr_getitem_negative_witness:
  "1 \<le> length [SymVar ''m'', IntImm 4] \<and>
   - int (length [SymVar ''m'', IntImm 4]) \<le> - 1 \<and> (- 1 :: int) \<le> - 1 \<and>
   ShapeExpr_getitem (ShapeExpr_init [SymVar ''m'', IntImm 4] None) (- 1) = Inr (IntImm 4)"
  using ShapeExpr_getitem_negative [of "[SymVar ''m'', IntImm 4]" "- 1" None]
  by simp

subsection \<open>Calling a variable or a function\<close>

text \<open>
  C1. Calling a Var returns a Call expression with that Var as the callee when the
  resolved static type of the Var is a function type, and raises TypeError when the
  resolved static type is absent or is not a function type.
\<close>

theorem Var_call_requires_FuncType:
  "(\<forall>t. checked_type v = Some t \<and> is_FuncType t \<longrightarrow>
        Var_call v as at = Inr (Call (VarE v) as at None None)) \<and>
   (checked_type v = None \<or> (\<exists>t. checked_type v = Some t \<and> \<not> is_FuncType t) \<longrightarrow>
        Var_call v as at = Inl TypeError)"
  by (auto simp: Var_call_def)

theorem Var_call_requires_FuncType_witness:
  "Var_call (mk_var \<lparr>id_addr = 0, id_name_hint = ''f''\<rparr> False None
        (Some (FuncType [ObjectType] ObjectType)) None) [Constant 1] None
     = Inr (Call (VarE (mk_var \<lparr>id_addr = 0, id_name_hint = ''f''\<rparr> False None
        (Some (FuncType [ObjectType] ObjectType)) None)) [Constant 1] None None None) \<and>
   Var_call (mk_var \<lparr>id_addr = 1, id_name_hint = ''x''\<rparr> False None
        (Some (DynTensorType 0 ''int32'')) None) [] None = Inl TypeError \<and>
   Var_call (mk_var \<lparr>id_addr = 2, id_name_hint = ''y''\<rparr> False None None None) [] None
     = Inl TypeError"
  using Var_call_requires_FuncType
      [of "mk_var \<lparr>id_addr = 0, id_name_hint = ''f''\<rparr> False None
             (Some (FuncType [ObjectType] ObjectType)) None" "[Constant 1]" None]
    Var_call_requires_FuncType
      [of "mk_var \<lparr>id_addr = 1, id_name_hint = ''x''\<rparr> False None
             (Some (DynTensorType 0 ''int32'')) None" "[]" None]
    Var_call_requires_FuncType
      [of "mk_var \<lparr>id_addr = 2, id_name_hint = ''y''\<rparr> False None None None" "[]" None]
  by (simp add: mk_var_def)

text \<open>
  C2, as the code has it. Calling a Function value always returns a Call expression
  with that function as the callee, the given arguments, and no attributes and no type
  arguments, whatever the statically known type of the function is; no type error is
  raised when the call is constructed.
\<close>

theorem Function_call_always_returns:
  "Function_call (Function ps b rt rs at sp ct) as
     = Inr (Call (Function ps b rt rs at sp ct) as None None None)"
  by (simp add: Function_call_def)

text \<open>
  The claim as stated fails for a function whose statically known type is absent, and
  for one whose statically known type is a tensor type: the call is constructed and
  nothing is raised.
\<close>

theorem Function_call_no_type_error:
  "fn_checked_type (Function [] (Constant 0) ObjectType (RuntimeDepShapeE None) None None None)
     = None \<and>
   Function_call (Function [] (Constant 0) ObjectType (RuntimeDepShapeE None) None None None) []
     = Inr (Call (Function [] (Constant 0) ObjectType (RuntimeDepShapeE None) None None None)
         [] None None None) \<and>
   fn_checked_type (Function [] (Constant 0) ObjectType (RuntimeDepShapeE None) None None
       (Some (DynTensorType 0 ''int32''))) = Some (DynTensorType 0 ''int32'') \<and>
   \<not> is_FuncType (DynTensorType 0 ''int32'') \<and>
   Function_call (Function [] (Constant 0) ObjectType (RuntimeDepShapeE None) None None
       (Some (DynTensorType 0 ''int32''))) [] \<noteq> Inl TypeError \<and>
   Function_call (Function [] (Constant 0) ObjectType (RuntimeDepShapeE None) None None
       (Some (DynTensorType 0 ''int32''))) []
     = Inr (Call (Function [] (Constant 0) ObjectType (RuntimeDepShapeE None) None None
       (Some (DynTensorType 0 ''int32''))) [] None None None)"
  by (simp add: Function_call_def)

subsection \<open>Construction of variables\<close>

lemma coerce_annotation_total:
  "coerce_annotation a =
     Inr (case a of ArgList ts \<Rightarrow> Some (Shape (ShapeExpr_init ts None))
          | ArgTuple ts \<Rightarrow> Some (Shape (ShapeExpr_init ts None))
          | ArgExpr s \<Rightarrow> Some s
          | ArgNone \<Rightarrow> None)"
  by (cases a) (simp_all add: coerce_annotation_def)

text \<open>
  C6. Two Vars each constructed from a name never share identity, also when the names
  are equal (the second construction happens in any later state of the arena); a Var
  constructed from an existing identifier has that identifier, so any two Vars built
  from the same identifier share identity.
\<close>

theorem Var_identity_per_construction:
  assumes "Var_init (Inl n1) a1 t1 s1 h = Inr (v1, h1)"
    and "next_id h1 \<le> next_id h2"
    and "Var_init (Inl n2) a2 t2 s2 h2 = Inr (v2, h3)"
    and "Var_init (Inr i) a3 t3 s3 h4 = Inr (v3, h5)"
    and "Var_init (Inr i) a4 t4 s4 h6 = Inr (v4, h7)"
  shows "\<not> same_identity v1 v2 \<and> vid v3 = i \<and> vid v4 = i \<and> same_identity v3 v4"
  using assms
  by (auto simp: Var_init_def coerce_annotation_total ffi_Var_def ffi_VarFromId_def mk_var_def
      same_identity_def)

theorem Var_identity_per_construction_witness:
  "\<not> same_identity
       (fst (projr (Var_init (Inl ''x'') ArgNone None None \<lparr>next_id = 0\<rparr>)))
       (fst (projr (Var_init (Inl ''x'') ArgNone None None
          (snd (projr (Var_init (Inl ''x'') ArgNone None None \<lparr>next_id = 0\<rparr>)))))) \<and>
   same_identity
       (fst (projr (Var_init (Inr \<lparr>id_addr = 7, id_name_hint = ''x''\<rparr>) ArgNone None None
          \<lparr>next_id = 8\<rparr>)))
       (fst (projr (Var_init (Inr \<lparr>id_addr = 7, id_name_hint = ''x''\<rparr>) (ArgList [IntImm 4])
          None None \<lparr>next_id = 8\<rparr>)))"
proof -
  let ?h = "\<lparr>next_id = 0\<rparr>"
  let ?i = "\<lparr>id_addr = 7, id_name_hint = ''x''\<rparr>"
  let ?r1 = "Var_init (Inl ''x'') ArgNone None None ?h"
  let ?r2 = "Var_init (Inl ''x'') ArgNone None None (snd (projr ?r1))"
  let ?r3 = "Var_init (Inr ?i) ArgNone None None \<lparr>next_id = 8\<rparr>"
  let ?r4 = "Var_init (Inr ?i) (ArgList [IntImm 4]) None None \<lparr>next_id = 8\<rparr>"
  have 1: "?r1 = Inr (fst (projr ?r1), snd (projr ?r1))"
    by (simp add: Var_init_def coerce_annotation_total)
  have 2: "next_id (snd (projr ?r1)) \<le> next_id (snd (projr ?r1))"
    by simp
  have 3: "?r2 = Inr (fst (projr ?r2), snd (projr ?r2))"
    by (simp add: Var_init_def coerce_annotation_total)
  have 4: "?r3 = Inr (fst (projr ?r3), snd (projr ?r3))"
    by (simp add: Var_init_def coerce_annotation_total)
  have 5: "?r4 = Inr (fst (projr ?r4), snd (projr ?r4))"
    by (simp add: Var_init_def coerce_annotation_total)
  from Var_identity_per_construction [OF 1 2 3 4 5] show ?thesis
    by simp
qed

text \<open>
  C7. A Var or a DataflowVar constructed with a shape annotation that is a plain list
  or tuple of terms \<open>ts\<close> holds, as its shape annotation, the ShapeExpr that
  \<open>make_shape\<close> builds from the sequence, and the terms of that ShapeExpr are exactly
  \<open>ts\<close>, in order.
\<close>

theorem shape_annotation_promoted:
  "(\<exists>v h' s. Var_init nh (ArgList ts) ta sp h = Inr (v, h') \<and> \<not> is_dataflow v \<and>
       var_shape v = Some (Shape s) \<and> make_shape (ArgList ts) = Inr s \<and>
       shape_values s = ts) \<and>
   (\<exists>v h' s. Var_init nh (ArgTuple ts) ta sp h = Inr (v, h') \<and> \<not> is_dataflow v \<and>
       var_shape v = Some (Shape s) \<and> make_shape (ArgTuple ts) = Inr s \<and>
       shape_values s = ts) \<and>
   (\<exists>v h' s. DataflowVar_init nh (ArgList ts) ta sp h = Inr (v, h') \<and> is_dataflow v \<and>
       var_shape v = Some (Shape s) \<and> make_shape (ArgList ts) = Inr s \<and>
       shape_values s = ts) \<and>
   (\<exists>v h' s. DataflowVar_init nh (ArgTuple ts) ta sp h = Inr (v, h') \<and> is_dataflow v \<and>
       var_shape v = Some (Shape s) \<and> make_shape (ArgTuple ts) = Inr s \<and>
       shape_values s = ts)"
  by (cases nh)
     (simp_all add: Var_init_def DataflowVar_init_def coerce_annotation_total ffi_Var_def
        ffi_VarFromId_def mk_var_def ShapeExpr_init_def)

text \<open>
  C9. The name hint of a Var is the name stored in its identifier; for a Var
  constructed from a name it is the supplied name; and whether two Vars are the same
  binding site does not depend on the names their identifiers carry.
\<close>

theorem name_hint_read_through:
  "name_hint v = id_name_hint (vid v) \<and>
   (\<forall>v' h'. Var_init (Inl name) a ta sp h = Inr (v', h') \<longrightarrow> name_hint v' = name) \<and>
   same_identity (v\<lparr>vid := (vid v)\<lparr>id_name_hint := n'\<rparr>\<rparr>) w = same_identity v w"
  by (auto simp: name_hint_def same_identity_def Var_init_def coerce_annotation_total
      ffi_Var_def mk_var_def)

theorem name_hint_read_through_witness:
  "Var_init (Inl ''x'') ArgNone None None \<lparr>next_id = 0\<rparr>
     = Inr (mk_var \<lparr>id_addr = 0, id_name_hint = ''x''\<rparr> False None None None, \<lparr>next_id = 1\<rparr>) \<and>
   name_hint (mk_var \<lparr>id_addr = 0, id_name_hint = ''x''\<rparr> False None None None) = ''x''"
proof -
  have e: "Var_init (Inl ''x'') ArgNone None None \<lparr>next_id = 0\<rparr>
     = Inr (mk_var \<lparr>id_addr = 0, id_name_hint = ''x''\<rparr> False None None None, \<lparr>next_id = 1\<rparr>)"
    by (simp add: Var_init_def coerce_annotation_total ffi_Var_def)
  from name_hint_read_through
      [of "mk_var \<lparr>id_addr = 0, id_name_hint = ''x''\<rparr> False None None None" "''x''" ArgNone None
          None "\<lparr>next_id = 0\<rparr>" "''y''"
          "mk_var \<lparr>id_addr = 0, id_name_hint = ''x''\<rparr> False None None None"] e
  show ?thesis by blast
qed

subsection \<open>Shape matching\<close>

lemma match_term_sound:
  assumes "match_term env p d = Inr env'"
  shows "env \<subseteq>\<^sub>m env' \<and> eval_term env' p = Some d \<and> dom env' = dom env \<union> term_syms p"
proof (cases p)
  case (IntImm c)
  with assms show ?thesis by (simp split: if_splits)
next
  case (SymVar s)
  show ?thesis
  proof (cases "env s")
    case None
    with assms SymVar have "env' = env(s \<mapsto> d)" by simp
    with None show ?thesis by (auto simp: SymVar map_le_def)
  next
    case (Some d')
    with assms SymVar have "env' = env" "d' = d" by (simp_all split: if_splits)
    with Some show ?thesis by (auto simp: SymVar)
  qed
qed

lemma eval_term_mono:
  "env \<subseteq>\<^sub>m env' \<Longrightarrow> eval_term env p = Some d \<Longrightarrow> eval_term env' p = Some d"
  by (cases p) (auto simp: map_le_def dom_def)

lemma match_terms_sound:
  "length pat = length ds \<Longrightarrow> match_terms env pat ds = Inr env' \<Longrightarrow>
   env \<subseteq>\<^sub>m env' \<and> (\<forall>i < length pat. eval_term env' (pat ! i) = Some (ds ! i)) \<and>
   dom env' = dom env \<union> pattern_syms pat"
proof (induction env pat ds arbitrary: env' rule: match_terms.induct)
  case (3 env p ps d ds)
  from "3.prems" obtain env1 where m: "match_term env p d = Inr env1"
    and r: "match_terms env1 ps ds = Inr env'"
    by (auto split: sum.splits)
  from "3.prems" have len: "length ps = length ds" by simp
  from match_term_sound [OF m] have a: "env \<subseteq>\<^sub>m env1" and b: "eval_term env1 p = Some d"
    and c: "dom env1 = dom env \<union> term_syms p" by simp_all
  from "3.IH" [OF m len r] have a': "env1 \<subseteq>\<^sub>m env'"
    and b': "\<forall>i < length ps. eval_term env' (ps ! i) = Some (ds ! i)"
    and c': "dom env' = dom env1 \<union> pattern_syms ps" by simp_all
  have "env \<subseteq>\<^sub>m env'" using a a' by (rule map_le_trans)
  moreover have "\<forall>i < length (p # ps). eval_term env' ((p # ps) ! i) = Some ((d # ds) ! i)"
  proof (intro allI impI)
    fix i assume "i < length (p # ps)"
    then show "eval_term env' ((p # ps) ! i) = Some ((d # ds) ! i)"
      using b' eval_term_mono [OF a' b] by (cases i) simp_all
  qed
  moreover have "dom env' = dom env \<union> pattern_syms (p # ps)"
    using c c' by (auto simp: pattern_syms_def)
  ultimately show ?case by blast
qed (simp_all add: pattern_syms_def)

lemma match_term_complete:
  assumes "env \<subseteq>\<^sub>m env'" and "eval_term env' p = Some d"
  shows "\<exists>env1. match_term env p d = Inr env1 \<and> env1 \<subseteq>\<^sub>m env' \<and> dom env1 = dom env \<union> term_syms p"
proof (cases p)
  case (IntImm c)
  with assms show ?thesis by simp
next
  case (SymVar s)
  with assms have e: "env' s = Some d" by simp
  show ?thesis
  proof (cases "env s")
    case None
    have "env(s \<mapsto> d) \<subseteq>\<^sub>m env'"
      using assms(1) e by (auto simp: map_le_def)
    with None show ?thesis by (auto simp: SymVar)
  next
    case (Some d')
    with assms(1) have "env' s = Some d'" by (auto simp: map_le_def dom_def)
    with e have "d' = d" by simp
    with Some assms(1) show ?thesis by (auto simp: SymVar)
  qed
qed

lemma match_terms_complete:
  "length pat = length ds \<Longrightarrow> env \<subseteq>\<^sub>m env' \<Longrightarrow>
   \<forall>i < length pat. eval_term env' (pat ! i) = Some (ds ! i) \<Longrightarrow>
   dom env' = dom env \<union> pattern_syms pat \<Longrightarrow> match_terms env pat ds = Inr env'"
proof (induction env pat ds rule: match_terms.induct)
  case (3 env p ps d ds)
  from "3.prems"(3) have h: "eval_term env' p = Some d" by auto
  from match_term_complete [OF "3.prems"(2) h] obtain env1
    where m: "match_term env p d = Inr env1" and le: "env1 \<subseteq>\<^sub>m env'"
      and dm: "dom env1 = dom env \<union> term_syms p" by blast
  from "3.prems"(1) have len: "length ps = length ds" by simp
  from "3.prems"(3) have t: "\<forall>i < length ps. eval_term env' (ps ! i) = Some (ds ! i)" by auto
  from "3.prems"(4) dm have d': "dom env' = dom env1 \<union> pattern_syms ps"
    by (auto simp: pattern_syms_def)
  from "3.IH" [OF m len le t d'] m show ?case by simp
next
  case (1 env ds)
  then have "dom env' = dom env" by (simp add: pattern_syms_def)
  with "1.prems"(2) have "env' = env" by (metis map_le_antisym map_le_def)
  then show ?case by simp
next
  case (2 env p ps)
  then show ?case by simp
qed

text \<open>
  C5. Constructing a MatchShape binding raises nothing. At run time the match succeeds
  with the symbol bindings \<open>env'\<close> exactly when the ranks agree and \<open>env'\<close> extends the
  bindings before the match by the symbols of the pattern such that every pattern term
  has the value of the actual dimension at its position: a free symbol is bound to the
  dimension of its first occurrence and every occurrence of a bound symbol is equal to
  the dimension there. Otherwise the match raises a run-time shape error.
\<close>

theorem MatchShape_binds_then_asserts:
  "MatchShape_init v pat x sp = MatchShape v pat x sp \<and>
   (match_shape env pat actual = Inr env' \<longleftrightarrow>
      length pat = length actual \<and> env \<subseteq>\<^sub>m env' \<and>
      (\<forall>i < length pat. eval_term env' (pat ! i) = Some (actual ! i)) \<and>
      dom env' = dom env \<union> pattern_syms pat)"
  using match_terms_sound [of pat actual env env'] match_terms_complete [of pat actual env env']
  by (auto simp: MatchShape_init_def match_shape_def)

theorem MatchShape_binds_then_asserts_witness:
  "match_shape Map.empty [SymVar ''m'', IntImm 4] [7, 4] = Inr [''m'' \<mapsto> 7] \<and>
   match_shape [''m'' \<mapsto> 7] [SymVar ''m'', SymVar ''m''] [7, 7] = Inr [''m'' \<mapsto> 7] \<and>
   match_shape [''m'' \<mapsto> 7] [SymVar ''m'', SymVar ''m''] [7, 8] = Inl (ShapeMismatch 7 8)"
proof -
  have 1: "length [SymVar ''m'', IntImm 4] = length [7, 4 :: int] \<and>
      Map.empty \<subseteq>\<^sub>m [''m'' \<mapsto> 7 :: int] \<and>
      (\<forall>i < length [SymVar ''m'', IntImm 4].
         eval_term [''m'' \<mapsto> 7] ([SymVar ''m'', IntImm 4] ! i) = Some ([7, 4] ! i)) \<and>
      dom [''m'' \<mapsto> 7 :: int] = dom (Map.empty :: sym_env) \<union> pattern_syms [SymVar ''m'', IntImm 4]"
    by (auto simp: less_Suc_eq numeral_2_eq_2 pattern_syms_def)
  have 2: "length [SymVar ''m'', SymVar ''m''] = length [7, 7 :: int] \<and>
      [''m'' \<mapsto> 7 :: int] \<subseteq>\<^sub>m [''m'' \<mapsto> 7 :: int] \<and>
      (\<forall>i < length [SymVar ''m'', SymVar ''m''].
         eval_term [''m'' \<mapsto> 7] ([SymVar ''m'', SymVar ''m''] ! i) = Some ([7, 7] ! i)) \<and>
      dom [''m'' \<mapsto> 7 :: int] = dom [''m'' \<mapsto> 7 :: int] \<union> pattern_syms [SymVar ''m'', SymVar ''m'']"
    by (auto simp: less_Suc_eq numeral_2_eq_2 pattern_syms_def)
  have 3: "match_shape [''m'' \<mapsto> 7] [SymVar ''m'', SymVar ''m''] [7, 8] = Inl (ShapeMismatch 7 8)"
    by (simp add: match_shape_def)
  from MatchShape_binds_then_asserts
      [of "Constant 0" "[SymVar ''m'', IntImm 4]"
         "mk_var \<lparr>id_addr = 0, id_name_hint = ''x''\<rparr> False None None None" None Map.empty "[7, 4]" "[''m'' \<mapsto> 7]"] 1
    MatchShape_binds_then_asserts
      [of "Constant 0" "[SymVar ''m'', SymVar ''m'']"
         "mk_var \<lparr>id_addr = 0, id_name_hint = ''x''\<rparr> False None None None" None "[''m'' \<mapsto> 7]" "[7, 7]" "[''m'' \<mapsto> 7]"] 2
    3
  show ?thesis by blast
qed

subsection \<open>Well-formedness\<close>

lemma refs_of_simps [simp]:
  "refs_of [] = {}"
  "refs_of (n # ns) = handle ` set (node_refs n) \<union> refs_of ns"
  "refs_of (ns @ ms) = refs_of ns \<union> refs_of ms"
  by (auto simp: refs_of_def)

lemma defs_of_simps [simp]:
  "defs_of [] = {}"
  "defs_of (n # ns) = handle ` set (node_defs n) \<union> handle ` set (node_params n) \<union> defs_of ns"
  "defs_of (ns @ ms) = defs_of ns \<union> defs_of ms"
  by (auto simp: defs_of_def)

lemma refs_of_concat: "refs_of (concat nss) = (\<Union>ns \<in> set nss. refs_of ns)"
  by (induction nss) auto

lemma defs_of_concat: "defs_of (concat nss) = (\<Union>ns \<in> set nss. defs_of ns)"
  by (induction nss) auto

lemma binding_var_in_defs: "handle (binding_var b) \<in> defs_of (nodes_binding b)"
  by (cases b) simp_all

lemma targets_in_defs:
  "handle ` binding_var ` set bs \<subseteq> defs_of (concat (map nodes_binding bs))"
  using binding_var_in_defs by (auto simp: defs_of_concat)

lemma check_scoped:
  "check_expr eff sc e = None \<Longrightarrow> refs_of (nodes_expr e) \<subseteq> set sc \<union> defs_of (nodes_expr e)"
  "check_exprs eff sc es = None \<Longrightarrow>
     refs_of (concat (map nodes_expr es)) \<subseteq> set sc \<union> defs_of (concat (map nodes_expr es))"
  "check_bindings eff df sc bs = Inr sc' \<Longrightarrow>
     set sc' = set sc \<union> handle ` binding_var ` set bs \<and>
     refs_of (concat (map nodes_binding bs)) \<subseteq> set sc \<union> defs_of (concat (map nodes_binding bs))"
  "check_blocks eff sc dfs blks = Inr r \<Longrightarrow>
     set (fst r) \<union> set (snd r) \<subseteq> set sc \<union> set dfs \<union> defs_of (concat (map nodes_block blks)) \<and>
     refs_of (concat (map nodes_block blks)) \<subseteq> set sc \<union> defs_of (concat (map nodes_block blks))"
proof (induction eff sc e and eff sc es and eff df sc bs and eff sc dfs blks
    arbitrary: and and sc' and r
    rule: check_expr_check_exprs_check_bindings_check_blocks.induct)
  case (8 eff sc bs b sp)
  from "8.prems" obtain sc' dfs where blk: "check_blocks eff sc [] bs = Inr (sc', dfs)"
    and bd: "check_expr eff (dfs @ sc') b = None"
    by (auto split: sum.splits)
  from "8.IH"(1) [OF blk]
  have s1: "set sc' \<union> set dfs \<subseteq> set sc \<union> defs_of (concat (map nodes_block bs))"
    and s2: "refs_of (concat (map nodes_block bs)) \<subseteq> set sc \<union> defs_of (concat (map nodes_block bs))"
    by simp_all
  from "8.IH"(2) [OF blk refl bd]
  have s3: "refs_of (nodes_expr b) \<subseteq> set (dfs @ sc') \<union> defs_of (nodes_expr b)" .
  from s1 s2 s3 show ?case by auto
next
  case (9 eff sc ps b rt rs at sp ct)
  then show ?case by auto
next
  case (14 eff df sc e pat x sp bs)
  from "14.prems" have np: "\<not> (df \<and> impure eff e)"
    and ce: "check_expr eff sc e = None"
    and cb: "check_bindings eff df (handle x # sc) bs = Inr sc'"
    by (auto split: if_splits option.splits)
  from "14.IH"(1) [OF np ce] "14.IH"(2) [OF np ce cb] show ?case by auto
next
  case (15 eff df sc x e sp bs)
  from "15.prems" have np: "\<not> (df \<and> impure eff e)"
    and ce: "check_expr eff sc e = None"
    and cb: "check_bindings eff df (handle x # sc) bs = Inr sc'"
    by (auto split: if_splits option.splits)
  from "15.IH"(1) [OF np ce] "15.IH"(2) [OF np ce cb] show ?case by auto
next
  case (17 eff sc dfs bs sp rest)
  from "17.prems" obtain sc1 where cb: "check_bindings eff False sc bs = Inr sc1"
    and cr: "check_blocks eff sc1 dfs rest = Inr r"
    by (auto split: sum.splits)
  have d: "defs_of (concat (map nodes_block (BindingBlock bs sp # rest)))
      = defs_of (concat (map nodes_binding bs)) \<union> defs_of (concat (map nodes_block rest))"
    by simp
  have f: "refs_of (concat (map nodes_block (BindingBlock bs sp # rest)))
      = refs_of (concat (map nodes_binding bs)) \<union> refs_of (concat (map nodes_block rest))"
    by simp
  from "17.IH"(1) [OF cb]
  have a1: "set sc1 = set sc \<union> handle ` binding_var ` set bs"
    and a2: "refs_of (concat (map nodes_binding bs))
      \<subseteq> set sc \<union> defs_of (concat (map nodes_binding bs))"
    by blast+
  from "17.IH"(2) [OF cb cr]
  have a3: "set (fst r) \<union> set (snd r)
      \<subseteq> set sc1 \<union> set dfs \<union> defs_of (concat (map nodes_block rest))"
    and a4: "refs_of (concat (map nodes_block rest))
      \<subseteq> set sc1 \<union> defs_of (concat (map nodes_block rest))"
    by blast+
  show ?case
    unfolding d f using a1 a2 a3 a4 targets_in_defs [of bs] by blast
next
  case (18 eff sc dfs bs sp rest)
  let ?sc = "map handle (filter (\<lambda>x. \<not> is_dataflow x) (map binding_var bs)) @ sc"
  let ?dfs = "map handle (filter is_dataflow (map binding_var bs)) @ dfs"
  from "18.prems" obtain sc1 where cb: "check_bindings eff True sc bs = Inr sc1"
    and cr: "check_blocks eff ?sc ?dfs rest = Inr r"
    by (auto split: sum.splits)
  have d: "defs_of (concat (map nodes_block (DataflowBlock bs sp # rest)))
      = defs_of (concat (map nodes_binding bs)) \<union> defs_of (concat (map nodes_block rest))"
    by simp
  have f: "refs_of (concat (map nodes_block (DataflowBlock bs sp # rest)))
      = refs_of (concat (map nodes_binding bs)) \<union> refs_of (concat (map nodes_block rest))"
    by simp
  have s1: "set ?sc \<subseteq> set sc \<union> handle ` binding_var ` set bs"
    and s2: "set ?dfs \<subseteq> set dfs \<union> handle ` binding_var ` set bs"
    by auto
  from "18.IH"(1) [OF cb]
  have a2: "refs_of (concat (map nodes_binding bs))
      \<subseteq> set sc \<union> defs_of (concat (map nodes_binding bs))"
    by blast
  from "18.IH"(2) [OF cb cr]
  have a3: "set (fst r) \<union> set (snd r)
      \<subseteq> set ?sc \<union> set ?dfs \<union> defs_of (concat (map nodes_block rest))"
    and a4: "refs_of (concat (map nodes_block rest))
      \<subseteq> set ?sc \<union> defs_of (concat (map nodes_block rest))"
    by blast+
  show ?case
    unfolding d f using s1 s2 a2 a3 a4 targets_in_defs [of bs] by blast
qed (auto split: option.splits if_splits)


lemma nodes_of_binding_value:
  "NBinding b \<in> set (nodes_expr e) \<Longrightarrow> set (nodes_expr (binding_value b)) \<subseteq> set (nodes_expr e)"
  "NBinding b \<in> set (nodes_binding b') \<Longrightarrow>
     set (nodes_expr (binding_value b)) \<subseteq> set (nodes_binding b')"
  "NBinding b \<in> set (nodes_block blk) \<Longrightarrow>
     set (nodes_expr (binding_value b)) \<subseteq> set (nodes_block blk)"
  by (induction e and b' and blk rule: nodes_expr_nodes_binding_nodes_block.induct)
     (auto 4 4)

lemma ref_node_in_refs_of: "NExpr (VarE v) \<in> set ns \<Longrightarrow> handle v \<in> refs_of ns"
  by (force simp: refs_of_def)

text \<open>
  C4. When a binding anywhere in the body of a function references a Var that is
  undefined (its identity is not the identity of a parameter, of the target of any
  binding of the graph, or of a parameter of a nested function), construction in
  checked mode fails with a well-formedness error and returns no function, while
  \<open>create_unchecked\<close> returns the function built from the same fields.
\<close>

theorem Function_init_undefined_var:
  assumes "NBinding b \<in> set (nodes_expr fb)"
    and "NExpr (VarE v) \<in> set (nodes_expr (binding_value b))"
    and "handle v \<notin> handle ` set ps \<union> defs_of (nodes_expr fb)"
  shows "(\<exists>er. Function_init eff ps fb rt rs at sp = Inl er) \<and>
         create_unchecked ps fb rt rs at sp = Function ps fb rt rs at sp None"
proof -
  from nodes_of_binding_value(1) [OF assms(1)] assms(2)
  have "NExpr (VarE v) \<in> set (nodes_expr fb)" by blast
  then have r: "handle v \<in> refs_of (nodes_expr fb)" by (rule ref_node_in_refs_of)
  have "check_expr eff (map handle ps) fb \<noteq> None"
  proof
    assume "check_expr eff (map handle ps) fb = None"
    from check_scoped(1) [OF this] r assms(3) show False by auto
  qed
  then show ?thesis
    by (auto simp: Function_init_def well_formed_def create_unchecked_def)
qed


theorem Function_init_undefined_var_witness:
  "Function_init (\<lambda>g. False)
     [mk_var \<lparr>id_addr = 0, id_name_hint = ''x''\<rparr> False None None None]
     (SeqExpr
        [BindingBlock
           [VarBinding (mk_var \<lparr>id_addr = 1, id_name_hint = ''y''\<rparr> False None None None)
              (VarE (mk_var \<lparr>id_addr = 2, id_name_hint = ''z''\<rparr> False None None None)) None]
           None]
        (VarE (mk_var \<lparr>id_addr = 1, id_name_hint = ''y''\<rparr> False None None None)) None)
     ObjectType (RuntimeDepShapeE None) None None
   = Inl (UndefinedVar (mk_var \<lparr>id_addr = 2, id_name_hint = ''z''\<rparr> False None None None))"
proof -
  let ?x = "mk_var \<lparr>id_addr = 0, id_name_hint = ''x''\<rparr> False None None None"
  let ?y = "mk_var \<lparr>id_addr = 1, id_name_hint = ''y''\<rparr> False None None None"
  let ?z = "mk_var \<lparr>id_addr = 2, id_name_hint = ''z''\<rparr> False None None None"
  let ?b = "VarBinding ?y (VarE ?z) None"
  let ?fb = "SeqExpr [BindingBlock [?b] None] (VarE ?y) None"
  have 1: "NBinding ?b \<in> set (nodes_expr ?fb)" by simp
  have 2: "NExpr (VarE ?z) \<in> set (nodes_expr (binding_value ?b))" by simp
  have 3: "handle ?z \<notin> handle ` set [?x] \<union> defs_of (nodes_expr ?fb)"
    by (simp add: handle_def mk_var_def)
  from Function_init_undefined_var [OF 1 2 3, of "\<lambda>g. False" ObjectType "RuntimeDepShapeE None" None None]
  show ?thesis
    by (simp add: Function_init_def well_formed_def handle_def mk_var_def)
qed

lemma check_blocks_scope:
  "check_blocks eff sc dfs blks = Inr r \<Longrightarrow>
     set (fst r) = set sc \<union> handle ` set (concat (map block_exports blks)) \<and>
     set (snd r) = set dfs \<union> handle ` set (concat (map block_hidden blks))"
proof (induction blks arbitrary: sc dfs)
  case Nil
  then show ?case by auto
next
  case (Cons x xs)
  show ?case
  proof (cases x)
    case (BindingBlock bs sp)
    with Cons.prems obtain sc1 where cb: "check_bindings eff False sc bs = Inr sc1"
      and cr: "check_blocks eff sc1 dfs xs = Inr r"
      by (auto split: sum.splits)
    from check_scoped(3) [OF cb] have "set sc1 = set sc \<union> handle ` binding_var ` set bs"
      by simp
    with Cons.IH [OF cr] BindingBlock show ?thesis by auto
  next
    case (DataflowBlock bs sp)
    with Cons.prems obtain sc1 where cb: "check_bindings eff True sc bs = Inr sc1"
      and cr: "check_blocks eff
          (map handle (filter (\<lambda>x. \<not> is_dataflow x) (map binding_var bs)) @ sc)
          (map handle (filter is_dataflow (map binding_var bs)) @ dfs) xs = Inr r"
      by (auto split: sum.splits)
    from Cons.IH [OF cr] DataflowBlock show ?thesis by auto
  qed
qed

lemma blames_simps [simp]:
  "blames h [] er = False"
  "blames h (n # ns) er =
     ((\<exists>w. n = NExpr (VarE w) \<and> handle w = h \<and> er = scope_error w) \<or> blames h ns er)"
  "blames h (ns @ ms) er = (blames h ns er \<or> blames h ms er)"
  by (auto simp: blames_def)

lemma escapes_fails:
  "h \<notin> set sc \<Longrightarrow> escapes h e \<Longrightarrow> check_expr eff sc e \<noteq> None"
  "h \<notin> set sc \<Longrightarrow> escapes_exprs h es \<Longrightarrow> check_exprs eff sc es \<noteq> None"
  "h \<notin> set sc \<Longrightarrow> escapes_bindings h bs \<Longrightarrow> \<exists>er. check_bindings eff df sc bs = Inl er"
  "h \<notin> set sc \<Longrightarrow> escapes_blocks h blks \<Longrightarrow> \<exists>er. check_blocks eff sc dfs blks = Inl er"
proof (induction eff sc e and eff sc es and eff df sc bs and eff sc dfs blks
    rule: check_expr_check_exprs_check_bindings_check_blocks.induct)
  case (8 eff sc bs b sp)
  show ?case
  proof (cases "check_blocks eff sc [] bs")
    case (Inl er)
    then show ?thesis by simp
  next
    case (Inr r)
    obtain sc' dfs where r: "r = (sc', dfs)" by (cases r)
    with Inr have blk: "check_blocks eff sc [] bs = Inr (sc', dfs)" by simp
    from "8.IH"(1) [OF "8.prems"(1)] blk have nb: "\<not> escapes_blocks h bs" by auto
    with "8.prems"(2) have e1: "h \<notin> handle ` set (concat (map block_exports bs))"
      and e2: "h \<notin> handle ` set (concat (map block_hidden bs))" and eb: "escapes h b"
      by auto
    from check_blocks_scope [OF blk] e1 e2 "8.prems"(1) have "h \<notin> set (dfs @ sc')" by auto
    from "8.IH"(2) [OF blk refl this eb] blk show ?thesis by simp
  qed
next
  case (14 eff df sc e pat x sp bs)
  then show ?case by (auto split: option.splits)
next
  case (15 eff df sc x e sp bs)
  then show ?case by (auto split: option.splits)
next
  case (17 eff sc dfs bs sp rest)
  show ?case
  proof (cases "check_bindings eff False sc bs")
    case (Inl er)
    then show ?thesis by simp
  next
    case (Inr sc1)
    with "17.IH"(1) [OF "17.prems"(1)] have nb: "\<not> escapes_bindings h bs" by auto
    with "17.prems"(2) have e1: "h \<notin> handle ` binding_var ` set bs"
      and er: "escapes_blocks h rest" by auto
    from check_scoped(3) [OF Inr] e1 "17.prems"(1) have "h \<notin> set sc1" by auto
    from "17.IH"(2) [OF Inr this er] Inr show ?thesis by simp
  qed
next
  case (18 eff sc dfs bs sp rest)
  show ?case
  proof (cases "check_bindings eff True sc bs")
    case (Inl er)
    then show ?thesis by simp
  next
    case (Inr sc1)
    with "18.IH"(1) [OF "18.prems"(1)] have nb: "\<not> escapes_bindings h bs" by auto
    with "18.prems"(2)
    have e1: "h \<notin> handle ` set (filter (\<lambda>x. \<not> is_dataflow x) (map binding_var bs))"
      and er: "escapes_blocks h rest" by auto
    from e1 "18.prems"(1)
    have "h \<notin> set (map handle (filter (\<lambda>x. \<not> is_dataflow x) (map binding_var bs)) @ sc)"
      by auto
    from "18.IH"(2) [OF Inr this er] Inr show ?thesis by simp
  qed
qed (auto split: option.splits)


lemma check_insert:
  "set scp = insert h (set sc) \<Longrightarrow> check_expr eff scp e = None \<Longrightarrow>
     check_expr eff sc e = None \<or>
     (\<exists>er. check_expr eff sc e = Some er \<and> blames h (nodes_expr e) er)"
  "set scp = insert h (set sc) \<Longrightarrow> check_exprs eff scp es = None \<Longrightarrow>
     check_exprs eff sc es = None \<or>
     (\<exists>er. check_exprs eff sc es = Some er \<and> blames h (concat (map nodes_expr es)) er)"
  "set scp = insert h (set sc) \<Longrightarrow> check_bindings eff df scp bs = Inr rp \<Longrightarrow>
     (\<exists>r. check_bindings eff df sc bs = Inr r \<and> set rp = insert h (set r)) \<or>
     (\<exists>er. check_bindings eff df sc bs = Inl er \<and>
        blames h (concat (map nodes_binding bs)) er)"
  "set scp = insert h (set sc) \<Longrightarrow> check_blocks eff scp dfs blks = Inr bp \<Longrightarrow>
     (\<exists>r. check_blocks eff sc dfs blks = Inr r \<and> set (fst bp) = insert h (set (fst r)) \<and>
        snd bp = snd r) \<or>
     (\<exists>er. check_blocks eff sc dfs blks = Inl er \<and>
        blames h (concat (map nodes_block blks)) er)"
proof (induction eff sc e and eff sc es and eff df sc bs and eff sc dfs blks
    arbitrary: scp and scp and scp rp and scp bp
    rule: check_expr_check_exprs_check_bindings_check_blocks.induct)
  case (3 eff sc v)
  then show ?case by (auto simp: scope_error_def split: if_splits)
next
  case (13 eff df sc)
  then show ?case by simp
next
  case (16 eff sc dfs)
  then show ?case by (cases bp) simp
next
  case (5 eff sc es)
  from "5.prems" have "check_exprs eff scp es = None" by simp
  from "5.IH" [OF "5.prems"(1) this] show ?case
    by auto
next
  case (6 eff sc f as at ta sp)
  from "6.prems"(2) have pf: "check_expr eff scp f = None" and pa: "check_exprs eff scp as = None"
    by (auto split: option.splits)
  from "6.IH"(1) [OF "6.prems"(1) pf] show ?case
  proof
    assume n: "check_expr eff sc f = None"
    from "6.IH"(2) [OF n "6.prems"(1) pa] n show ?thesis
      by auto
  next
    assume "\<exists>er. check_expr eff sc f = Some er \<and> blames h (nodes_expr f) er"
    then show ?thesis by auto
  qed
next
  case (7 eff sc c t e)
  from "7.prems"(2) have pc: "check_expr eff scp c = None" and pt: "check_expr eff scp t = None"
    and pe: "check_expr eff scp e = None"
    by (auto split: option.splits)
  from "7.IH"(1) [OF "7.prems"(1) pc] show ?case
  proof
    assume nc: "check_expr eff sc c = None"
    from "7.IH"(2) [OF nc "7.prems"(1) pt] show ?thesis
    proof
      assume nt: "check_expr eff sc t = None"
      from "7.IH"(3) [OF nc nt "7.prems"(1) pe] nc nt show ?thesis
        by auto
    next
      assume "\<exists>er. check_expr eff sc t = Some er \<and> blames h (nodes_expr t) er"
      with nc show ?thesis by auto
    qed
  next
    assume "\<exists>er. check_expr eff sc c = Some er \<and> blames h (nodes_expr c) er"
    then show ?thesis by auto
  qed
next
  case (8 eff sc bs b sp)
  from "8.prems"(2) obtain scp' dfsp where pb: "check_blocks eff scp [] bs = Inr (scp', dfsp)"
    and pe: "check_expr eff (dfsp @ scp') b = None"
    by (auto split: sum.splits)
  from "8.IH"(1) [OF "8.prems"(1) pb] show ?case
  proof
    assume "\<exists>r. check_blocks eff sc [] bs = Inr r \<and> set (fst (scp', dfsp)) = insert h (set (fst r)) \<and>
        snd (scp', dfsp) = snd r"
    then obtain sc' where blk: "check_blocks eff sc [] bs = Inr (sc', dfsp)"
      and rel: "set scp' = insert h (set sc')"
      by (cases, auto)
    from rel have rel': "set (dfsp @ scp') = insert h (set (dfsp @ sc'))" by auto
    from "8.IH"(2) [OF blk refl rel' pe] blk show ?thesis
      by auto
  next
    assume "\<exists>er. check_blocks eff sc [] bs = Inl er \<and> blames h (concat (map nodes_block bs)) er"
    then show ?thesis by auto
  qed
next
  case (9 eff sc ps b rt rs at sp ct)
  from "9.prems" have rel: "set (map handle ps @ scp) = insert h (set (map handle ps @ sc))"
    and pe: "check_expr eff (map handle ps @ scp) b = None" by auto
  from "9.IH" [OF rel pe] show ?case by auto
next
  case (12 eff sc e es)
  from "12.prems"(2) have pf: "check_expr eff scp e = None" and pa: "check_exprs eff scp es = None"
    by (auto split: option.splits)
  from "12.IH"(1) [OF "12.prems"(1) pf] show ?case
  proof
    assume n: "check_expr eff sc e = None"
    from "12.IH"(2) [OF n "12.prems"(1) pa] n show ?thesis
      by auto
  next
    assume "\<exists>er. check_expr eff sc e = Some er \<and> blames h (nodes_expr e) er"
    then show ?thesis by auto
  qed
next
  case (14 eff df sc e pat x sp bs)
  from "14.prems"(2) have np: "\<not> (df \<and> impure eff e)" and pe: "check_expr eff scp e = None"
    and pb: "check_bindings eff df (handle x # scp) bs = Inr rp"
    by (auto split: if_splits option.splits)
  from "14.prems"(1) have rel: "set (handle x # scp) = insert h (set (handle x # sc))" by auto
  from "14.IH"(1) [OF np "14.prems"(1) pe] show ?case
  proof
    assume n: "check_expr eff sc e = None"
    from "14.IH"(2) [OF np n rel pb] n np show ?thesis
      by auto
  next
    assume "\<exists>er. check_expr eff sc e = Some er \<and> blames h (nodes_expr e) er"
    with np show ?thesis by auto
  qed
next
  case (15 eff df sc x e sp bs)
  from "15.prems"(2) have np: "\<not> (df \<and> impure eff e)" and pe: "check_expr eff scp e = None"
    and pb: "check_bindings eff df (handle x # scp) bs = Inr rp"
    by (auto split: if_splits option.splits)
  from "15.prems"(1) have rel: "set (handle x # scp) = insert h (set (handle x # sc))" by auto
  from "15.IH"(1) [OF np "15.prems"(1) pe] show ?case
  proof
    assume n: "check_expr eff sc e = None"
    from "15.IH"(2) [OF np n rel pb] n np show ?thesis
      by auto
  next
    assume "\<exists>er. check_expr eff sc e = Some er \<and> blames h (nodes_expr e) er"
    with np show ?thesis by auto
  qed
next
  case (17 eff sc dfs bs sp rest)
  from "17.prems"(2) obtain scp1 where pb: "check_bindings eff False scp bs = Inr scp1"
    and pr: "check_blocks eff scp1 dfs rest = Inr bp"
    by (auto split: sum.splits)
  from "17.IH"(1) [OF "17.prems"(1) pb] show ?case
  proof
    assume "\<exists>r. check_bindings eff False sc bs = Inr r \<and> set scp1 = insert h (set r)"
    then obtain sc1 where cb: "check_bindings eff False sc bs = Inr sc1"
      and rel: "set scp1 = insert h (set sc1)" by blast
    from "17.IH"(2) [OF cb rel pr] cb show ?thesis
      by auto
  next
    assume "\<exists>er. check_bindings eff False sc bs = Inl er \<and>
        blames h (concat (map nodes_binding bs)) er"
    then show ?thesis by auto
  qed
next
  case (18 eff sc dfs bs sp rest)
  let ?ex = "map handle (filter (\<lambda>x. \<not> is_dataflow x) (map binding_var bs))"
  let ?hd = "map handle (filter is_dataflow (map binding_var bs))"
  from "18.prems"(2) obtain scp1 where pb: "check_bindings eff True scp bs = Inr scp1"
    and pr: "check_blocks eff (?ex @ scp) (?hd @ dfs) rest = Inr bp"
    by (auto split: sum.splits)
  from "18.prems"(1) have rel: "set (?ex @ scp) = insert h (set (?ex @ sc))" by auto
  from "18.IH"(1) [OF "18.prems"(1) pb] show ?case
  proof
    assume "\<exists>r. check_bindings eff True sc bs = Inr r \<and> set scp1 = insert h (set r)"
    then obtain sc1 where cb: "check_bindings eff True sc bs = Inr sc1" by blast
    from "18.IH"(2) [OF cb rel pr] cb show ?thesis
      by auto
  next
    assume "\<exists>er. check_bindings eff True sc bs = Inl er \<and>
        blames h (concat (map nodes_binding bs)) er"
    then show ?thesis by auto
  qed
qed simp_all


lemma check_mono:
  "set sc \<subseteq> set sc' \<Longrightarrow> check_expr eff sc e = None \<Longrightarrow> check_expr eff sc' e = None"
  "set sc \<subseteq> set sc' \<Longrightarrow> check_exprs eff sc es = None \<Longrightarrow> check_exprs eff sc' es = None"
  "set sc \<subseteq> set sc' \<Longrightarrow> check_bindings eff df sc bs = Inr r \<Longrightarrow>
     \<exists>r'. check_bindings eff df sc' bs = Inr r' \<and> set r \<subseteq> set r'"
  "set sc \<subseteq> set sc' \<Longrightarrow> check_blocks eff sc dfs blks = Inr b \<Longrightarrow>
     \<exists>b'. check_blocks eff sc' dfs blks = Inr b' \<and> set (fst b) \<subseteq> set (fst b') \<and> snd b' = snd b"
proof (induction eff sc e and eff sc es and eff df sc bs and eff sc dfs blks
    arbitrary: sc' and sc' and sc' r and sc' b
    rule: check_expr_check_exprs_check_bindings_check_blocks.induct)
  case (3 eff sc v)
  then show ?case by (auto split: if_splits)
next
  case (6 eff sc f as at ta sp)
  from "6.prems"(2) have pf: "check_expr eff sc f = None" and pa: "check_exprs eff sc as = None"
    by (auto split: option.splits)
  from "6.IH"(1) [OF "6.prems"(1) pf] "6.IH"(2) [OF pf "6.prems"(1) pa] show ?case by simp
next
  case (7 eff sc c t e)
  from "7.prems"(2) have pc: "check_expr eff sc c = None" and pt: "check_expr eff sc t = None"
    and pe: "check_expr eff sc e = None"
    by (auto split: option.splits)
  from "7.IH"(1) [OF "7.prems"(1) pc] "7.IH"(2) [OF pc "7.prems"(1) pt]
    "7.IH"(3) [OF pc pt "7.prems"(1) pe]
  show ?case by simp
next
  case (8 eff sc bs b sp)
  from "8.prems"(2) obtain sc1 dfs where pb: "check_blocks eff sc [] bs = Inr (sc1, dfs)"
    and pe: "check_expr eff (dfs @ sc1) b = None"
    by (auto split: sum.splits)
  from "8.IH"(1) [OF "8.prems"(1) pb] obtain sc1' where
    blk: "check_blocks eff sc' [] bs = Inr (sc1', dfs)" and sub: "set sc1 \<subseteq> set sc1'"
    by (cases, auto)
  from sub have sub': "set (dfs @ sc1) \<subseteq> set (dfs @ sc1')" by auto
  from "8.IH"(2) [OF pb refl sub' pe] blk show ?case by simp
next
  case (9 eff sc ps b rt rs at sp ct)
  from "9.prems" have sub: "set (map handle ps @ sc) \<subseteq> set (map handle ps @ sc')"
    and pe: "check_expr eff (map handle ps @ sc) b = None" by auto
  from "9.IH" [OF sub pe] show ?case by simp
next
  case (12 eff sc e es)
  from "12.prems"(2) have pf: "check_expr eff sc e = None" and pa: "check_exprs eff sc es = None"
    by (auto split: option.splits)
  from "12.IH"(1) [OF "12.prems"(1) pf] "12.IH"(2) [OF pf "12.prems"(1) pa] show ?case by simp
next
  case (13 eff df sc)
  then show ?case by simp
next
  case (14 eff df sc e pat x sp bs)
  from "14.prems"(2) have np: "\<not> (df \<and> impure eff e)" and pe: "check_expr eff sc e = None"
    and pb: "check_bindings eff df (handle x # sc) bs = Inr r"
    by (auto split: if_splits option.splits)
  from "14.prems"(1) have sub: "set (handle x # sc) \<subseteq> set (handle x # sc')" by auto
  from "14.IH"(1) [OF np "14.prems"(1) pe] "14.IH"(2) [OF np pe sub pb] np show ?case by simp
next
  case (15 eff df sc x e sp bs)
  from "15.prems"(2) have np: "\<not> (df \<and> impure eff e)" and pe: "check_expr eff sc e = None"
    and pb: "check_bindings eff df (handle x # sc) bs = Inr r"
    by (auto split: if_splits option.splits)
  from "15.prems"(1) have sub: "set (handle x # sc) \<subseteq> set (handle x # sc')" by auto
  from "15.IH"(1) [OF np "15.prems"(1) pe] "15.IH"(2) [OF np pe sub pb] np show ?case by simp
next
  case (16 eff sc dfs)
  then show ?case by (cases b) simp
next
  case (17 eff sc dfs bs sp rest)
  from "17.prems"(2) obtain sc1 where pb: "check_bindings eff False sc bs = Inr sc1"
    and pr: "check_blocks eff sc1 dfs rest = Inr b"
    by (auto split: sum.splits)
  from "17.IH"(1) [OF "17.prems"(1) pb] obtain sc1' where
    cb: "check_bindings eff False sc' bs = Inr sc1'" and sub: "set sc1 \<subseteq> set sc1'" by blast
  from "17.IH"(2) [OF pb sub pr] cb show ?case by simp
next
  case (18 eff sc dfs bs sp rest)
  let ?ex = "map handle (filter (\<lambda>x. \<not> is_dataflow x) (map binding_var bs))"
  let ?hd = "map handle (filter is_dataflow (map binding_var bs))"
  from "18.prems"(2) obtain sc1 where pb: "check_bindings eff True sc bs = Inr sc1"
    and pr: "check_blocks eff (?ex @ sc) (?hd @ dfs) rest = Inr b"
    by (auto split: sum.splits)
  from "18.IH"(1) [OF "18.prems"(1) pb] obtain sc1' where
    cb: "check_bindings eff True sc' bs = Inr sc1'" by blast
  from "18.prems"(1) have sub: "set (?ex @ sc) \<subseteq> set (?ex @ sc')" by auto
  from "18.IH"(2) [OF pb sub pr] cb show ?case by simp
qed simp_all

lemma escapes_bindings_append:
  "escapes_bindings h (xs @ ys) =
     (escapes_bindings h xs \<or> (h \<notin> handle ` binding_var ` set xs \<and> escapes_bindings h ys))"
proof (induction xs)
  case Nil
  show ?case by simp
next
  case (Cons x xs)
  then show ?case by (cases x) auto
qed

lemma escapes_blocks_append:
  "escapes_blocks h (xs @ ys) =
     (escapes_blocks h xs \<or>
      (h \<notin> handle ` set (concat (map block_exports xs)) \<and> escapes_blocks h ys))"
proof (induction xs)
  case Nil
  show ?case by simp
next
  case (Cons x xs)
  then show ?case by (cases x) auto
qed

text \<open>
  The reading by position: a reference at any depth of the value of a binding of a
  BindingBlock escapes the body when no block and no binding before it leaves the
  identity in scope. This is the case of a DataflowVar bound in an earlier sibling
  DataflowBlock, or in a SeqExpr nested in an earlier binding value.
\<close>

lemma escapes_outer_block:
  assumes "h \<notin> handle ` set (concat (map block_exports blks1))"
    and "h \<notin> handle ` binding_var ` set pre"
    and "escapes h (binding_value bnd)"
  shows "escapes h (SeqExpr (blks1 @ BindingBlock (pre @ bnd # post) sb # blks2) tb s)"
  using assms
  by (cases bnd) (simp_all add: escapes_blocks_append escapes_bindings_append)

text \<open>
  C8. Let \<open>dv\<close> be a DataflowVar that is bound inside a DataflowBlock of a function and
  is not a parameter. When the body of the function references \<open>dv\<close> from a place where
  it is not visible (at any depth of a binding value, in particular from a sibling
  BindingBlock or from a BindingBlock outside the SeqExpr that encloses the
  DataflowBlock), and the function has no other defect (it validates once \<open>dv\<close> is
  visible everywhere, and every reference to the identity of \<open>dv\<close> is \<open>dv\<close> itself),
  construction in checked mode fails with the visibility error that names \<open>dv\<close>.
  When a SeqExpr with valid blocks binds \<open>dv\<close> in one of its DataflowBlocks and its
  trailing body references \<open>dv\<close> and is valid with \<open>dv\<close> visible, construction in checked
  mode of the function with that body succeeds.
\<close>

theorem DataflowVar_visibility:
  assumes "is_dataflow dv"
    and "handle dv \<notin> handle ` set ps"
    and "NBlock (DataflowBlock bs sd) \<in> set (nodes_expr fb)"
    and "dv \<in> binding_var ` set bs"
    and "escapes (handle dv) fb"
    and "check_expr eff (handle dv # map handle ps) fb = None"
    and "\<forall>w. NExpr (VarE w) \<in> set (nodes_expr fb) \<and> handle w = handle dv \<longrightarrow> w = dv"
    and "check_blocks eff (map handle ps) [] blks = Inr r"
    and "DataflowBlock bs' sd' \<in> set blks"
    and "dv \<in> binding_var ` set bs'"
    and "NExpr (VarE dv) \<in> set (nodes_expr tb)"
    and "check_expr eff (handle dv # fst r) tb = None"
    and "first_dup (bound_vars (SeqExpr blks tb s)) = None"
  shows "Function_init eff ps fb rt rs at sp = Inl (VisibilityViolation dv) \<and>
         Function_init eff ps (SeqExpr blks tb s) rt rs at sp
           = Inr (Function ps (SeqExpr blks tb s) rt rs at sp None)"
proof -
  let ?h = "handle dv"
  from assms(2) have nin: "?h \<notin> set (map handle ps)" by simp
  from escapes_fails(1) [OF nin assms(5)]
  have fails: "check_expr eff (map handle ps) fb \<noteq> None" .
  have rel: "set (?h # map handle ps) = insert ?h (set (map handle ps))" by simp
  from check_insert(1) [OF rel assms(6)] fails
  obtain er where er: "check_expr eff (map handle ps) fb = Some er"
    and bl: "blames ?h (nodes_expr fb) er" by blast
  from bl obtain w where "NExpr (VarE w) \<in> set (nodes_expr fb)" "handle w = ?h"
    "er = scope_error w" by (auto simp: blames_def)
  with assms(7) have "er = scope_error dv" by blast
  with assms(1) have "er = VisibilityViolation dv" by (simp add: scope_error_def)
  with er have f: "Function_init eff ps fb rt rs at sp = Inl (VisibilityViolation dv)"
    by (simp add: Function_init_def well_formed_def)
  from assms(9,10,1) have "?h \<in> handle ` set (concat (map block_hidden blks))"
    by force
  with check_blocks_scope [OF assms(8)] have "?h \<in> set (snd r)" by auto
  then have sub: "set (?h # fst r) \<subseteq> set (snd r @ fst r)" by auto
  from check_mono(1) [OF sub assms(12)]
  have "check_expr eff (snd r @ fst r) tb = None" .
  with assms(8) have "check_expr eff (map handle ps) (SeqExpr blks tb s) = None"
    by (cases r) simp
  with assms(13) have "Function_init eff ps (SeqExpr blks tb s) rt rs at sp
     = Inr (Function ps (SeqExpr blks tb s) rt rs at sp None)"
    by (simp add: Function_init_def well_formed_def)
  with f show ?thesis by simp
qed


theorem DataflowVar_visibility_witness:
  "Function_init (\<lambda>g. False)
     [mk_var \<lparr>id_addr = 0, id_name_hint = ''x''\<rparr> False None None None]
     (SeqExpr
        [BindingBlock
           [VarBinding
              (mk_var \<lparr>id_addr = 2, id_name_hint = ''a''\<rparr> False None None None)
              (SeqExpr
                 [DataflowBlock
                    [VarBinding
                       (mk_var \<lparr>id_addr = 1, id_name_hint = ''lv''\<rparr> True None None None)
                       (VarE (mk_var \<lparr>id_addr = 0, id_name_hint = ''x''\<rparr> False None None None))
                       None]
                    None]
                 (VarE (mk_var \<lparr>id_addr = 1, id_name_hint = ''lv''\<rparr> True None None None))
                 None)
              None]
           None,
         BindingBlock
           [VarBinding
              (mk_var \<lparr>id_addr = 3, id_name_hint = ''gv''\<rparr> False None None None)
              (Call (ExternFunc ''f'' None)
                 [VarE (mk_var \<lparr>id_addr = 1, id_name_hint = ''lv''\<rparr> True None None None)]
                 None None None)
              None]
           None]
        (VarE (mk_var \<lparr>id_addr = 3, id_name_hint = ''gv''\<rparr> False None None None)) None)
     ObjectType (RuntimeDepShapeE None) None None
   = Inl (VisibilityViolation
       (mk_var \<lparr>id_addr = 1, id_name_hint = ''lv''\<rparr> True None None None)) \<and>
   Function_init (\<lambda>g. False)
     [mk_var \<lparr>id_addr = 0, id_name_hint = ''x''\<rparr> False None None None]
     (SeqExpr
        [DataflowBlock
           [VarBinding
              (mk_var \<lparr>id_addr = 1, id_name_hint = ''lv''\<rparr> True None None None)
              (VarE (mk_var \<lparr>id_addr = 0, id_name_hint = ''x''\<rparr> False None None None))
              None]
           None]
        (TupleE
           [VarE (mk_var \<lparr>id_addr = 1, id_name_hint = ''lv''\<rparr> True None None None),
            VarE (mk_var \<lparr>id_addr = 0, id_name_hint = ''x''\<rparr> False None None None)])
        None)
     ObjectType (RuntimeDepShapeE None) None None
   = Inr (Function
       [mk_var \<lparr>id_addr = 0, id_name_hint = ''x''\<rparr> False None None None]
       (SeqExpr
          [DataflowBlock
             [VarBinding
                (mk_var \<lparr>id_addr = 1, id_name_hint = ''lv''\<rparr> True None None None)
                (VarE (mk_var \<lparr>id_addr = 0, id_name_hint = ''x''\<rparr> False None None None))
                None]
             None]
          (TupleE
             [VarE (mk_var \<lparr>id_addr = 1, id_name_hint = ''lv''\<rparr> True None None None),
              VarE (mk_var \<lparr>id_addr = 0, id_name_hint = ''x''\<rparr> False None None None)])
          None)
       ObjectType (RuntimeDepShapeE None) None None None)"
proof -
  let ?x = "mk_var \<lparr>id_addr = 0, id_name_hint = ''x''\<rparr> False None None None"
  let ?lv = "mk_var \<lparr>id_addr = 1, id_name_hint = ''lv''\<rparr> True None None None"
  let ?a = "mk_var \<lparr>id_addr = 2, id_name_hint = ''a''\<rparr> False None None None"
  let ?gv = "mk_var \<lparr>id_addr = 3, id_name_hint = ''gv''\<rparr> False None None None"
  let ?bs = "[VarBinding ?lv (VarE ?x) None]"
  let ?blks = "[DataflowBlock ?bs None]"
  let ?S = "SeqExpr ?blks (VarE ?lv) None"
  let ?blks1 = "[BindingBlock [VarBinding ?a ?S None] None]"
  let ?bnd = "VarBinding ?gv (Call (ExternFunc ''f'' None) [VarE ?lv] None None None) None"
  let ?fb = "SeqExpr (?blks1 @ BindingBlock ([] @ ?bnd # []) None # []) (VarE ?gv) None"
  let ?tb = "TupleE [VarE ?lv, VarE ?x]"
  have 1: "is_dataflow ?lv" by (simp add: mk_var_def)
  have 2: "handle ?lv \<notin> handle ` set [?x]" by (simp add: handle_def mk_var_def)
  have 3: "NBlock (DataflowBlock ?bs None) \<in> set (nodes_expr ?fb)" by simp
  have 4: "?lv \<in> binding_var ` set ?bs" by simp
  have e1: "handle ?lv \<notin> handle ` set (concat (map block_exports ?blks1))"
    by (simp add: handle_def mk_var_def)
  have e2: "handle ?lv \<notin> handle ` binding_var ` set []" by simp
  have e3: "escapes (handle ?lv) (binding_value ?bnd)" by simp
  have 5: "escapes (handle ?lv) ?fb" by (rule escapes_outer_block [OF e1 e2 e3])
  have 6: "check_expr (\<lambda>g. False) (handle ?lv # map handle [?x]) ?fb = None"
    by (simp add: impure_def handle_def mk_var_def)
  have 7: "\<forall>w. NExpr (VarE w) \<in> set (nodes_expr ?fb) \<and> handle w = handle ?lv \<longrightarrow> w = ?lv"
    by (auto simp: handle_def mk_var_def)
  have 8: "check_blocks (\<lambda>g. False) (map handle [?x]) [] ?blks = Inr ([handle ?x], [handle ?lv])"
    by (simp add: impure_def mk_var_def)
  have 9: "DataflowBlock ?bs None \<in> set ?blks" by simp
  have 11: "NExpr (VarE ?lv) \<in> set (nodes_expr ?tb)" by simp
  have 12: "check_expr (\<lambda>g. False) (handle ?lv # fst ([handle ?x], [handle ?lv])) ?tb = None"
    by simp
  have 13: "first_dup (bound_vars (SeqExpr ?blks ?tb None)) = None"
    by (simp add: bound_vars_def)
  from DataflowVar_visibility [OF 1 2 3 4 5 6 7 8 9 4 11 12 13, of ObjectType
      "RuntimeDepShapeE None" None None]
  show ?thesis by simp
qed

end
